theory Spec2Isabelle
  imports Main "HOL-Library.Word"
begin

section \<open>The HTTP/2 request-engine shed\<close>

text \<open>
  A shallow embedding of the engine shed of \<^verbatim>\<open>mod_http2\<close> (the C file that defines
  \<^verbatim>\<open>h2_ngn_shed_push_req\<close>, \<^verbatim>\<open>h2_ngn_shed_pull_req\<close>, \<^verbatim>\<open>h2_ngn_shed_done_task\<close>
  and \<^verbatim>\<open>h2_ngn_shed_done_ngn\<close>). The C functions mutate objects behind pointers: engines,
  tasks, requests and connections live in explicit stores (functions from addresses to
  values), and every function takes the state and returns the new one. Calls of
  \<^verbatim>\<open>ap_log_cerror\<close> have no effect on this state and are left out; pools are memory
  management and are left out as well.
\<close>

subsection \<open>Status codes\<close>

text \<open>
  The values of \<^verbatim>\<open>apr_status_t\<close> that the shed itself returns, and any other status an
  engine initializer may hand back.
\<close>

datatype apr_status_t = APR_SUCCESS | APR_EOF | APR_EAGAIN | APR_ECONNABORTED | APR_OTHER nat

subsection \<open>Data\<close>

type_synonym ngn_ref = nat
type_synonym task_ref = nat
type_synonym req_ref = nat
type_synonym conn_ref = nat

text \<open>\<^verbatim>\<open>struct h2_ngn_entry\<close>: the ring link is the position in the engine's list.\<close>

record h2_ngn_entry =
  entry_task :: task_ref
  entry_r :: req_ref

text \<open>
  \<^verbatim>\<open>struct h2_req_engine\<close>. The ring \<^verbatim>\<open>entries\<close> is a list, first element first;
  the four counters are \<^verbatim>\<open>apr_uint32_t\<close>.
\<close>

record h2_req_engine =
  ngn_id :: string
  ngn_type :: string
  ngn_c :: "conn_ref option"
  ngn_task :: "task_ref option"
  shutdown :: bool
  entries :: "h2_ngn_entry list"
  capacity :: "32 word"
  no_assigned :: "32 word"
  no_live :: "32 word"
  no_finished :: "32 word"

text \<open>
  The fields of \<^verbatim>\<open>h2_task\<close> that the shed reads or writes. \<^verbatim>\<open>output_closed\<close> stands
  for the state of \<^verbatim>\<open>task->output\<close>.
\<close>

record h2_task =
  task_id :: string
  ser_headers :: bool
  frozen :: bool
  engine :: "ngn_ref option"
  output_closed :: bool

text \<open>The one key the shed writes into a connection's notes table.\<close>

datatype note_key = H2_TASK_ID_NOTE

record conn_rec =
  conn_id :: int
  conn_notes :: "note_key \<rightharpoonup> string"

record request_rec =
  connection :: conn_ref

text \<open>
  \<^verbatim>\<open>struct h2_ngn_shed\<close>, as \<^verbatim>\<open>h2_ngn_shed_create\<close> and the other functions use it.
  \<^verbatim>\<open>next_ngn_id\<close> is a C \<^verbatim>\<open>int\<close>, printed with \<^verbatim>\<open>%d\<close>: a 32-bit word that is read
  as a signed number (\<open>sint\<close>). Its increment wraps around in two's complement, as the
  compiled code does, from 2147483647 to -2147483648.
\<close>

record h2_ngn_shed =
  shed_c :: conn_ref
  req_buffer_size :: "32 word"
  ngns :: "string \<rightharpoonup> ngn_ref"
  next_ngn_id :: "32 word"
  aborted :: bool
  user_ctx :: "nat option"

text \<open>
  The state: the shed of one connection and the objects it points to.
  \<^verbatim>\<open>ngn_alloc\<close> is the next address \<^verbatim>\<open>apr_pcalloc\<close> hands out for an engine, so the
  engines at addresses below it are the ones created so far. \<^verbatim>\<open>ctx_task\<close> is what
  \<^verbatim>\<open>h2_ctx_rget_task\<close> reads: the task bound to a request's context.
\<close>

record state =
  shed :: h2_ngn_shed
  engines :: "ngn_ref \<Rightarrow> h2_req_engine"
  ngn_alloc :: ngn_ref
  tasks :: "task_ref \<Rightarrow> h2_task"
  requests :: "req_ref \<Rightarrow> request_rec"
  conns :: "conn_ref \<Rightarrow> conn_rec"
  ctx_task :: "req_ref \<Rightarrow> task_ref"

type_synonym h2_req_engine_init =
  "ngn_ref \<Rightarrow> string \<Rightarrow> string \<Rightarrow> 32 word \<Rightarrow> req_ref \<Rightarrow> apr_status_t"

definition ngn_upd :: "ngn_ref \<Rightarrow> (h2_req_engine \<Rightarrow> h2_req_engine) \<Rightarrow> state \<Rightarrow> state" where
  "ngn_upd p f s = s\<lparr>engines := (engines s)(p := f (engines s p))\<rparr>"

definition task_upd :: "task_ref \<Rightarrow> (h2_task \<Rightarrow> h2_task) \<Rightarrow> state \<Rightarrow> state" where
  "task_upd t f s = s\<lparr>tasks := (tasks s)(t := f (tasks s t))\<rparr>"

subsection \<open>Collaborators that the shed calls\<close>

text \<open>
  Modelled from the spec: \<^verbatim>\<open>h2_task_freeze\<close> is defined outside the shed's file. The spec
  describes it as suspending the request's direct I/O and handing progress to the engine;
  here it sets the task's \<^verbatim>\<open>frozen\<close> flag.
\<close>

definition h2_task_freeze :: "state \<Rightarrow> task_ref \<Rightarrow> req_ref \<Rightarrow> state" where
  "h2_task_freeze s task r = task_upd task (\<lambda>t. t\<lparr>frozen := True\<rparr>) s"

text \<open>
  Modelled from the spec: \<^verbatim>\<open>h2_task_output_close\<close> is defined outside the shed's file. The
  spec describes it as force-terminating the output of a request that is aborted while
  still queued; here it marks the task's output as closed.
\<close>

definition h2_task_output_close :: "state \<Rightarrow> task_ref \<Rightarrow> state" where
  "h2_task_output_close s task = task_upd task (\<lambda>t. t\<lparr>output_closed := True\<rparr>) s"

text \<open>\<^verbatim>\<open>h2_ctx_rget_task\<close> is defined outside the shed's file; it is a lookup in the state.\<close>

definition h2_ctx_rget_task :: "state \<Rightarrow> req_ref \<Rightarrow> task_ref" where
  "h2_ctx_rget_task s r = ctx_task s r"

text \<open>\<^verbatim>\<open>apr_table_set\<close> on the notes of a connection: the key's old value is replaced.\<close>

definition apr_table_set :: "state \<Rightarrow> conn_ref \<Rightarrow> note_key \<Rightarrow> string \<Rightarrow> state" where
  "apr_table_set s c k v = s\<lparr>conns := (conns s)(c := (conns s c)\<lparr>conn_notes := (conn_notes (conns s c))(k \<mapsto> v)\<rparr>)\<rparr>"

text \<open>Decimal output, as \<^verbatim>\<open>%ld\<close> and \<^verbatim>\<open>%d\<close> of \<^verbatim>\<open>apr_psprintf\<close> print it.\<close>

definition digit_char :: "nat \<Rightarrow> char" where
  "digit_char d = ''0123456789'' ! d"

fun show_nat :: "nat \<Rightarrow> string" where
  "show_nat n = (if n < 10 then [digit_char n] else show_nat (n div 10) @ [digit_char (n mod 10)])"

declare show_nat.simps [simp del]

definition show_int :: "int \<Rightarrow> string" where
  "show_int i = (if i < 0 then CHR ''-'' # show_nat (nat (- i)) else show_nat (nat i))"

subsection \<open>The shed's functions\<close>

definition h2_ngn_shed_create :: "conn_ref \<Rightarrow> 32 word \<Rightarrow> h2_ngn_shed" where
  "h2_ngn_shed_create c rbs =
     \<lparr>shed_c = c, req_buffer_size = rbs, ngns = Map.empty, next_ngn_id = 0,
      aborted = False, user_ctx = None\<rparr>"

definition h2_ngn_shed_set_ctx :: "state \<Rightarrow> nat option \<Rightarrow> state" where
  "h2_ngn_shed_set_ctx s u = s\<lparr>shed := (shed s)\<lparr>user_ctx := u\<rparr>\<rparr>"

definition h2_ngn_shed_get_ctx :: "state \<Rightarrow> nat option" where
  "h2_ngn_shed_get_ctx s = user_ctx (shed s)"

definition h2_ngn_shed_abort :: "state \<Rightarrow> state" where
  "h2_ngn_shed_abort s = s\<lparr>shed := (shed s)\<lparr>aborted := True\<rparr>\<rparr>"

definition ngn_add_req :: "state \<Rightarrow> ngn_ref \<Rightarrow> task_ref \<Rightarrow> req_ref \<Rightarrow> state" where
  "ngn_add_req s ngn task r =
     ngn_upd ngn (\<lambda>e. e\<lparr>entries := entries e @ [\<lparr>entry_task = task, entry_r = r\<rparr>]\<rparr>) s"

text \<open>
  The engine \<^verbatim>\<open>h2_ngn_shed_push_req\<close> queues into: the one registered under the type, unless
  it is in shutdown or has \<^verbatim>\<open>no_assigned >= capacity\<close>. In both of these cases, and when
  no engine is registered, the C code falls through to the creation of an engine.
\<close>

definition push_target :: "state \<Rightarrow> string \<Rightarrow> ngn_ref option" where
  "push_target s type_name =
     (case ngns (shed s) type_name of
        None \<Rightarrow> None
      | Some ngn \<Rightarrow>
          if shutdown (engines s ngn) then None
          else if capacity (engines s ngn) \<le> no_assigned (engines s ngn) then None
          else Some ngn)"

text \<open>
  The engine that \<^verbatim>\<open>h2_ngn_shed_push_req\<close> builds in zeroed memory before it calls the
  initializer.
\<close>

definition new_engine :: "state \<Rightarrow> string \<Rightarrow> req_ref \<Rightarrow> h2_req_engine" where
  "new_engine s type_name r =
     \<lparr>ngn_id = ''ngn-'' @ show_int (conn_id (conns s (shed_c (shed s)))) @ ''-''
                @ show_int (sint (next_ngn_id (shed s))),
      ngn_type = type_name,
      ngn_c = Some (connection (requests s r)),
      ngn_task = None,
      shutdown = False,
      entries = [],
      capacity = 100,
      no_assigned = 1,
      no_live = 1,
      no_finished = 0\<rparr>"

definition h2_ngn_shed_push_req ::
  "state \<Rightarrow> string \<Rightarrow> task_ref \<Rightarrow> req_ref \<Rightarrow> h2_req_engine_init option \<Rightarrow> apr_status_t \<times> state" where
  "h2_ngn_shed_push_req s type_name task r einit =
     (let s0 = apr_table_set s (connection (requests s r)) H2_TASK_ID_NOTE (task_id (tasks s task)) in
      if ser_headers (tasks s0 task) then (APR_EOF, s0)
      else
        case push_target s0 type_name of
          Some ngn \<Rightarrow>
            (APR_SUCCESS,
             ngn_upd ngn (\<lambda>e. e\<lparr>no_assigned := no_assigned e + 1\<rparr>)
               (ngn_add_req (h2_task_freeze s0 task r) ngn task r))
        | None \<Rightarrow>
            (case einit of
               None \<Rightarrow> (APR_EOF, s0)
             | Some init \<Rightarrow>
                 let newngn = ngn_alloc s0;
                     e = new_engine s0 type_name r;
                     s1 = s0\<lparr>ngn_alloc := Suc newngn,
                             engines := (engines s0)(newngn := e),
                             shed := (shed s0)\<lparr>next_ngn_id := next_ngn_id (shed s0) + 1\<rparr>\<rparr>;
                     status = init newngn (ngn_id e) (ngn_type e) (req_buffer_size (shed s1)) r
                 in if status = APR_SUCCESS then
                      let s2 = ngn_upd newngn (\<lambda>e. e\<lparr>ngn_task := Some task\<rparr>) s1;
                          s3 = task_upd task (\<lambda>t. t\<lparr>engine := Some newngn\<rparr>) s2
                      in (status, s3\<lparr>shed := (shed s3)\<lparr>ngns := (ngns (shed s3))(ngn_type e \<mapsto> newngn)\<rparr>\<rparr>)
                    else (status, s1)))"

text \<open>
  The loop of \<^verbatim>\<open>pop_non_frozen\<close> over the ring: the first entry whose task is not frozen,
  and the ring without it.
\<close>

fun pop_scan :: "(task_ref \<Rightarrow> h2_task) \<Rightarrow> h2_ngn_entry list \<Rightarrow> (h2_ngn_entry \<times> h2_ngn_entry list) option" where
  "pop_scan ts [] = None"
| "pop_scan ts (entry # rest) =
     (if \<not> frozen (ts (entry_task entry)) then Some (entry, rest)
      else case pop_scan ts rest of
             None \<Rightarrow> None
           | Some (found, rest') \<Rightarrow> Some (found, entry # rest'))"

definition pop_non_frozen :: "state \<Rightarrow> ngn_ref \<Rightarrow> h2_ngn_entry option \<times> state" where
  "pop_non_frozen s ngn =
     (case pop_scan (tasks s) (entries (engines s ngn)) of
        None \<Rightarrow> (None, s)
      | Some (entry, rest) \<Rightarrow> (Some entry, ngn_upd ngn (\<lambda>e. e\<lparr>entries := rest\<rparr>) s))"

text \<open>The result is the status, the value stored in \<^verbatim>\<open>*pr\<close>, and the new state.\<close>

definition h2_ngn_shed_pull_req ::
  "state \<Rightarrow> ngn_ref \<Rightarrow> 32 word \<Rightarrow> bool \<Rightarrow> apr_status_t \<times> req_ref option \<times> state" where
  "h2_ngn_shed_pull_req s ngn cap want_shutdown =
     (if aborted (shed s) then
        (APR_ECONNABORTED, None, ngn_upd ngn (\<lambda>e. e\<lparr>shutdown := True\<rparr>) s)
      else
        let s1 = ngn_upd ngn (\<lambda>e. e\<lparr>capacity := cap\<rparr>) s in
        if entries (engines s1 ngn) = [] then
          let s2 = (if want_shutdown then ngn_upd ngn (\<lambda>e. e\<lparr>shutdown := True\<rparr>) s1 else s1)
          in (if shutdown (engines s2 ngn) then APR_EOF else APR_EAGAIN, None, s2)
        else
          case pop_non_frozen s1 ngn of
            (Some entry, s2) \<Rightarrow>
              (APR_SUCCESS, Some (entry_r entry),
               ngn_upd ngn (\<lambda>e. e\<lparr>no_live := no_live e + 1\<rparr>) s2)
          | (None, s2) \<Rightarrow> (APR_EAGAIN, None, s2))"

definition ngn_done_task ::
  "state \<Rightarrow> ngn_ref \<Rightarrow> task_ref \<Rightarrow> bool \<Rightarrow> bool \<Rightarrow> bool \<Rightarrow> apr_status_t \<times> state" where
  "ngn_done_task s ngn task waslive abrt close =
     (let s1 = ngn_upd ngn (\<lambda>e. e\<lparr>no_finished := no_finished e + 1\<rparr>) s;
          s2 = (if waslive then ngn_upd ngn (\<lambda>e. e\<lparr>no_live := no_live e - 1\<rparr>) s1 else s1);
          s3 = ngn_upd ngn (\<lambda>e. e\<lparr>no_assigned := no_assigned e - 1\<rparr>) s2;
          s4 = (if close then h2_task_output_close s3 task else s3)
      in (APR_SUCCESS, s4))"

definition h2_ngn_shed_done_task :: "state \<Rightarrow> ngn_ref \<Rightarrow> task_ref \<Rightarrow> apr_status_t \<times> state" where
  "h2_ngn_shed_done_task s ngn task = ngn_done_task s ngn task True False False"

text \<open>
  The loop of \<^verbatim>\<open>h2_ngn_shed_done_ngn\<close> over the entries still queued. It walks the ring
  and removes nothing from it.
\<close>

fun done_ngn_loop :: "state \<Rightarrow> ngn_ref \<Rightarrow> h2_ngn_entry list \<Rightarrow> state" where
  "done_ngn_loop s ngn [] = s"
| "done_ngn_loop s ngn (entry # rest) =
     done_ngn_loop (snd (ngn_done_task s ngn (h2_ctx_rget_task s (entry_r entry)) False True True))
       ngn rest"

definition h2_ngn_shed_done_ngn :: "state \<Rightarrow> ngn_ref \<Rightarrow> state" where
  "h2_ngn_shed_done_ngn s ngn =
     (let s1 = (if \<not> aborted (shed s) \<and> entries (engines s ngn) \<noteq> []
                then done_ngn_loop s ngn (entries (engines s ngn)) else s);
          existing = ngns (shed s1) (ngn_type (engines s1 ngn))
      in if existing = Some ngn
         then s1\<lparr>shed := (shed s1)\<lparr>ngns := (ngns (shed s1))(ngn_type (engines s1 ngn) := None)\<rparr>\<rparr>
         else s1)"

subsection \<open>Sequences of calls\<close>

text \<open>
  One call into the shed's interface, and a sequence of such calls made one after the
  other on the state. Statuses and pulled requests are dropped here: \<open>shed_calls\<close> is
  used to say what holds of the state after any history of calls.
\<close>

datatype shed_call =
    Push_req string task_ref req_ref "h2_req_engine_init option"
  | Pull_req ngn_ref "32 word" bool
  | Done_task ngn_ref task_ref
  | Done_ngn ngn_ref
  | Abort
  | Set_ctx "nat option"

fun do_call :: "state \<Rightarrow> shed_call \<Rightarrow> state" where
  "do_call s (Push_req type_name task r einit) = snd (h2_ngn_shed_push_req s type_name task r einit)"
| "do_call s (Pull_req ngn cap want_shutdown) = snd (snd (h2_ngn_shed_pull_req s ngn cap want_shutdown))"
| "do_call s (Done_task ngn task) = snd (h2_ngn_shed_done_task s ngn task)"
| "do_call s (Done_ngn ngn) = h2_ngn_shed_done_ngn s ngn"
| "do_call s Abort = h2_ngn_shed_abort s"
| "do_call s (Set_ctx u) = h2_ngn_shed_set_ctx s u"

definition shed_calls :: "state \<Rightarrow> shed_call list \<Rightarrow> state" where
  "shed_calls s cs = foldl do_call s cs"

text \<open>
  A worker that pulls \<open>k\<close> times in a row from one engine; the result is the list of
  requests it was handed, in the order of the calls.
\<close>

fun pull_reqs :: "nat \<Rightarrow> state \<Rightarrow> ngn_ref \<Rightarrow> 32 word \<Rightarrow> bool \<Rightarrow> req_ref list" where
  "pull_reqs 0 s ngn cap want_shutdown = []"
| "pull_reqs (Suc k) s ngn cap want_shutdown =
     (case h2_ngn_shed_pull_req s ngn cap want_shutdown of
        (status, pr, s') \<Rightarrow>
          (case pr of None \<Rightarrow> [] | Some r \<Rightarrow> [r]) @ pull_reqs k s' ngn cap want_shutdown)"

subsection \<open>The accounting of an engine\<close>

text \<open>
  The counters read as natural numbers: the assigned requests of an engine are the ones
  in its queue and the live ones.
\<close>

definition ngn_accounting :: "h2_req_engine \<Rightarrow> bool" where
  "ngn_accounting e \<longleftrightarrow> unat (no_assigned e) = length (entries e) + unat (no_live e)"

subsection \<open>Example states\<close>

text \<open>
  A fresh connection with id 7: no engine yet, zeroed engine memory, task \<open>t\<close> serving
  request \<open>t\<close>; task 9 asks for serialized headers.
\<close>

definition engine0 :: h2_req_engine where
  "engine0 = \<lparr>ngn_id = [], ngn_type = [], ngn_c = None, ngn_task = None, shutdown = False,
     entries = [], capacity = 0, no_assigned = 0, no_live = 0, no_finished = 0\<rparr>"

definition state0 :: state where
  "state0 = \<lparr>shed = h2_ngn_shed_create 0 8192,
     engines = (\<lambda>_. engine0),
     ngn_alloc = 0,
     tasks = (\<lambda>t. \<lparr>task_id = ''7-'' @ show_nat t, ser_headers = (t = 9), frozen = False,
                   engine = None, output_closed = False\<rparr>),
     requests = (\<lambda>_. \<lparr>connection = 0\<rparr>),
     conns = (\<lambda>_. \<lparr>conn_id = 7, conn_notes = Map.empty\<rparr>),
     ctx_task = (\<lambda>r. r)\<rparr>"

text \<open>
  The same connection later: engine 0 of type \<open>echo\<close> was created around task 1 and is
  registered; requests 2, 3 and 4 are queued for it, and of their tasks only task 2 is
  still frozen.
\<close>

definition engine1 :: h2_req_engine where
  "engine1 = \<lparr>ngn_id = ''ngn-7-0'', ngn_type = ''echo'', ngn_c = Some 0, ngn_task = Some 1,
     shutdown = False,
     entries = [\<lparr>entry_task = 2, entry_r = 2\<rparr>, \<lparr>entry_task = 3, entry_r = 3\<rparr>,
                \<lparr>entry_task = 4, entry_r = 4\<rparr>],
     capacity = 100, no_assigned = 4, no_live = 1, no_finished = 0\<rparr>"

definition state1 :: state where
  "state1 = \<lparr>shed = (h2_ngn_shed_create 0 8192)\<lparr>ngns := [''echo'' \<mapsto> 0], next_ngn_id := 1\<rparr>,
     engines = (\<lambda>_. engine0)(0 := engine1),
     ngn_alloc = 1,
     tasks = (\<lambda>t. \<lparr>task_id = ''7-'' @ show_nat t, ser_headers = (t = 9), frozen = (t = 2),
                   engine = (if t = 1 then Some 0 else None), output_closed = False\<rparr>),
     requests = (\<lambda>_. \<lparr>connection = 0\<rparr>),
     conns = (\<lambda>_. \<lparr>conn_id = 7, conn_notes = Map.empty\<rparr>),
     ctx_task = (\<lambda>r. r)\<rparr>"

definition einit_ok :: h2_req_engine_init where
  "einit_ok = (\<lambda>ngn ngn_id type_name rbs r. APR_SUCCESS)"


text \<open>
  Engine 0 has been shut down; then a push of task 5 with an initializer has created
  engine 1 of the same type.
\<close>

definition state2 :: state where
  "state2 = ngn_upd 0 (\<lambda>e. e\<lparr>shutdown := True\<rparr>) state1"

definition state3 :: state where
  "state3 = snd (h2_ngn_shed_push_req state2 ''echo'' 5 5 (Some einit_ok))"


section \<open>Properties\<close>

subsection \<open>Stores and fields\<close>

lemma ngn_upd_fields:
  "shed (ngn_upd p f s) = shed s"
  "engines (ngn_upd p f s) = (engines s)(p := f (engines s p))"
  "ngn_alloc (ngn_upd p f s) = ngn_alloc s"
  "tasks (ngn_upd p f s) = tasks s"
  "requests (ngn_upd p f s) = requests s"
  "conns (ngn_upd p f s) = conns s"
  "ctx_task (ngn_upd p f s) = ctx_task s"
  by (simp_all add: ngn_upd_def)

lemma task_upd_fields:
  "shed (task_upd t f s) = shed s"
  "engines (task_upd t f s) = engines s"
  "ngn_alloc (task_upd t f s) = ngn_alloc s"
  "tasks (task_upd t f s) = (tasks s)(t := f (tasks s t))"
  "requests (task_upd t f s) = requests s"
  "conns (task_upd t f s) = conns s"
  "ctx_task (task_upd t f s) = ctx_task s"
  by (simp_all add: task_upd_def)

lemma apr_table_set_fields:
  "shed (apr_table_set s c k v) = shed s"
  "engines (apr_table_set s c k v) = engines s"
  "ngn_alloc (apr_table_set s c k v) = ngn_alloc s"
  "tasks (apr_table_set s c k v) = tasks s"
  "requests (apr_table_set s c k v) = requests s"
  "ctx_task (apr_table_set s c k v) = ctx_task s"
  "conn_id (conns (apr_table_set s c k v) c') = conn_id (conns s c')"
  by (simp_all add: apr_table_set_def)

lemma word_lt_unat_Suc:
  fixes a b :: "32 word"
  assumes "a < b"
  shows "unat (a + 1) = Suc (unat a)"
proof -
  have "unat a < unat b" using assms by (simp add: word_less_nat_alt)
  moreover have "unat b < 2 ^ 32" using unsigned_less [of b, where ?'a = nat] by simp
  ultimately have "unat a + unat (1 :: 32 word) < 2 ^ LENGTH(32)" by simp
  then have "unat (a + 1) = unat a + unat (1 :: 32 word)" by (simp only: unat_add_lem)
  then show ?thesis by simp
qed


lemma ngn_done_task_fields:
  "shed (snd (ngn_done_task s ngn task waslive abrt close)) = shed s"
  "ngn_alloc (snd (ngn_done_task s ngn task waslive abrt close)) = ngn_alloc s"
  "ctx_task (snd (ngn_done_task s ngn task waslive abrt close)) = ctx_task s"
  by (simp_all add: ngn_done_task_def h2_task_output_close_def Let_def ngn_upd_fields task_upd_fields)

lemma done_ngn_loop_shed: "shed (done_ngn_loop s ngn es) = shed s"
  by (induction es arbitrary: s) (simp_all add: ngn_done_task_fields)

lemma push_req_aborted: "aborted (shed (snd (h2_ngn_shed_push_req s type_name task r einit))) = aborted (shed s)"
  by (simp add: h2_ngn_shed_push_req_def Let_def ngn_add_req_def h2_task_freeze_def
        ngn_upd_fields task_upd_fields apr_table_set_fields split: option.split)

lemma pull_req_aborted: "aborted (shed (snd (snd (h2_ngn_shed_pull_req s ngn cap ws)))) = aborted (shed s)"
  by (simp add: h2_ngn_shed_pull_req_def pop_non_frozen_def Let_def ngn_upd_fields
        split: option.split prod.split)

lemma done_ngn_aborted: "aborted (shed (h2_ngn_shed_done_ngn s ngn)) = aborted (shed s)"
  by (simp add: h2_ngn_shed_done_ngn_def Let_def done_ngn_loop_shed)

lemma do_call_aborted: "aborted (shed s) \<Longrightarrow> aborted (shed (do_call s c))"
  by (cases c)
     (simp_all add: push_req_aborted pull_req_aborted done_ngn_aborted h2_ngn_shed_done_task_def
        ngn_done_task_fields h2_ngn_shed_abort_def h2_ngn_shed_set_ctx_def)

lemma shed_calls_aborted: "aborted (shed s) \<Longrightarrow> aborted (shed (shed_calls s cs))"
  unfolding shed_calls_def
  by (induction cs arbitrary: s) (simp_all add: do_call_aborted)









subsection \<open>The loops\<close>

lemma done_ngn_loop_ctx_task: "ctx_task (done_ngn_loop s ngn es) = ctx_task s"
  by (induction es arbitrary: s) (simp_all add: ngn_done_task_fields)

lemma ngn_done_task_queued_engines:
  "engines (snd (ngn_done_task s ngn task False abrt True)) =
     (engines s)(ngn := (engines s ngn)\<lparr>no_finished := no_finished (engines s ngn) + 1,
                                         no_assigned := no_assigned (engines s ngn) - 1\<rparr>)"
  by (simp add: ngn_done_task_def h2_task_output_close_def Let_def ngn_upd_def task_upd_def)

lemma ngn_done_task_queued_tasks:
  "tasks (snd (ngn_done_task s ngn task False abrt True)) =
     (tasks s)(task := (tasks s task)\<lparr>output_closed := True\<rparr>)"
  by (simp add: ngn_done_task_def h2_task_output_close_def Let_def ngn_upd_def task_upd_def)

lemma done_ngn_loop_engines:
  "engines (done_ngn_loop s ngn es) =
     (engines s)(ngn := (engines s ngn)\<lparr>no_finished := no_finished (engines s ngn) + of_nat (length es),
                                         no_assigned := no_assigned (engines s ngn) - of_nat (length es)\<rparr>)"
proof (induction es arbitrary: s)
  case Nil
  show ?case by simp
next
  case (Cons e es)
  show ?case
    by (rule ext) (simp add: Cons.IH ngn_done_task_queued_engines algebra_simps)
qed

lemma done_ngn_loop_tasks:
  "tasks (done_ngn_loop s ngn es) t =
     (if t \<in> h2_ctx_rget_task s ` entry_r ` set es
      then (tasks s t)\<lparr>output_closed := True\<rparr> else tasks s t)"
proof (induction es arbitrary: s)
  case Nil
  show ?case by simp
next
  case (Cons e es)
  have c: "h2_ctx_rget_task (snd (ngn_done_task s ngn (h2_ctx_rget_task s (entry_r e)) False True True)) = h2_ctx_rget_task s"
    by (rule ext) (simp add: h2_ctx_rget_task_def ngn_done_task_fields)
  show ?case
    by (simp add: Cons.IH c ngn_done_task_queued_tasks)
qed

lemma done_ngn_idle_engines:
  "aborted (shed s) \<or> entries (engines s ngn) = []
   \<Longrightarrow> engines (h2_ngn_shed_done_ngn s ngn) = engines s
       \<and> ngn_alloc (h2_ngn_shed_done_ngn s ngn) = ngn_alloc s"
  by (auto simp add: h2_ngn_shed_done_ngn_def Let_def)

lemma done_ngn_entries:
  "entries (engines (h2_ngn_shed_done_ngn s ngn) ngn) = entries (engines s ngn)"
  by (simp add: h2_ngn_shed_done_ngn_def Let_def done_ngn_loop_engines)

lemma done_ngn_no_live:
  "no_live (engines (h2_ngn_shed_done_ngn s ngn) ngn) = no_live (engines s ngn)"
  by (simp add: h2_ngn_shed_done_ngn_def Let_def done_ngn_loop_engines)

lemma done_ngn_no_assigned:
  "\<not> aborted (shed s) \<Longrightarrow>
   no_assigned (engines (h2_ngn_shed_done_ngn s ngn) ngn)
     = no_assigned (engines s ngn) - of_nat (length (entries (engines s ngn)))"
  by (simp add: h2_ngn_shed_done_ngn_def Let_def done_ngn_loop_engines)

lemma pop_scan_None: "pop_scan ts xs = None \<longleftrightarrow> (\<forall>x \<in> set xs. frozen (ts (entry_task x)))"
  by (induction xs) (auto split: option.splits)

lemma pop_scan_split:
  "\<forall>x \<in> set ys. frozen (ts (entry_task x)) \<Longrightarrow> \<not> frozen (ts (entry_task e))
   \<Longrightarrow> pop_scan ts (ys @ e # zs) = Some (e, ys @ zs)"
  by (induction ys) simp_all

lemma pop_scan_filter:
  "pop_scan ts xs = Some (e, rest)
   \<Longrightarrow> filter (\<lambda>x. \<not> frozen (ts (entry_task x))) xs = e # filter (\<lambda>x. \<not> frozen (ts (entry_task x))) rest"
  by (induction xs arbitrary: e rest) (auto split: if_splits option.splits)

lemma pop_scan_length: "pop_scan ts xs = Some (e, rest) \<Longrightarrow> length xs = Suc (length rest)"
  by (induction xs arbitrary: e rest) (auto split: if_splits option.splits)

lemma pull_req_scan_None:
  assumes "\<not> aborted (shed s)" and "entries (engines s ngn) \<noteq> []"
    and "pop_scan (tasks s) (entries (engines s ngn)) = None"
  shows "h2_ngn_shed_pull_req s ngn cap ws = (APR_EAGAIN, None, ngn_upd ngn (\<lambda>e. e\<lparr>capacity := cap\<rparr>) s)"
  using assms
  by (simp add: h2_ngn_shed_pull_req_def pop_non_frozen_def Let_def ngn_upd_fields)

lemma pull_req_scan_Some:
  assumes "\<not> aborted (shed s)"
    and "pop_scan (tasks s) (entries (engines s ngn)) = Some (e, rest)"
  shows "h2_ngn_shed_pull_req s ngn cap ws =
           (APR_SUCCESS, Some (entry_r e),
            ngn_upd ngn (\<lambda>x. x\<lparr>capacity := cap, entries := rest, no_live := no_live x + 1\<rparr>) s)"
proof -
  have "entries (engines s ngn) \<noteq> []"
    using assms(2) by auto
  then show ?thesis
    using assms
    by (simp add: h2_ngn_shed_pull_req_def pop_non_frozen_def Let_def ngn_upd_def)
qed

lemma pull_reqs_filter:
  "\<not> aborted (shed s) \<Longrightarrow>
   pull_reqs k s ngn cap ws =
     map entry_r (take k (filter (\<lambda>e. \<not> frozen (tasks s (entry_task e))) (entries (engines s ngn))))"
proof (induction k arbitrary: s)
  case 0
  show ?case by simp
next
  case (Suc k)
  show ?case
  proof (cases "pop_scan (tasks s) (entries (engines s ngn))")
    case None
    then have f: "filter (\<lambda>e. \<not> frozen (tasks s (entry_task e))) (entries (engines s ngn)) = []"
      by (simp add: pop_scan_None)
    show ?thesis
    proof (cases "entries (engines s ngn) = []")
      case True
      with Suc.prems show ?thesis
        by (simp add: h2_ngn_shed_pull_req_def Let_def ngn_upd_fields Suc.IH)
    next
      case False
      with Suc.prems None f show ?thesis
        by (simp add: pull_req_scan_None Suc.IH ngn_upd_fields)
    qed
  next
    case (Some p)
    obtain e rest where p: "p = (e, rest)" by (cases p)
    from Some p have sc: "pop_scan (tasks s) (entries (engines s ngn)) = Some (e, rest)" by simp
    show ?thesis
      using Suc.prems
      by (simp add: pull_req_scan_Some [OF Suc.prems sc] Suc.IH ngn_upd_fields pop_scan_filter [OF sc])
  qed
qed

subsection \<open>Accounting, call by call\<close>

lemma new_engine_accounting: "ngn_accounting (new_engine s type_name r)"
  by (simp add: ngn_accounting_def new_engine_def)

lemma push_target_Some:
  "push_target s type_name = Some ngn \<Longrightarrow> no_assigned (engines s ngn) < capacity (engines s ngn)"
  by (auto simp add: push_target_def split: option.splits if_splits)

lemma push_req_accounting:
  assumes "ngn_accounting (engines s p)"
  shows "ngn_accounting (engines (snd (h2_ngn_shed_push_req s type_name task r einit)) p)"
proof -
  let ?s0 = "apr_table_set s (connection (requests s r)) H2_TASK_ID_NOTE (task_id (tasks s task))"
  show ?thesis
  proof (cases "ser_headers (tasks s task)")
    case True
    with assms show ?thesis
      by (simp add: h2_ngn_shed_push_req_def Let_def apr_table_set_fields)
  next
    case ser: False
    show ?thesis
    proof (cases "push_target ?s0 type_name")
      case (Some ngn)
      have "no_assigned (engines s ngn) < capacity (engines s ngn)"
        using push_target_Some [OF Some] by (simp add: apr_table_set_fields)
      then have u: "unat (no_assigned (engines s ngn) + 1) = Suc (unat (no_assigned (engines s ngn)))"
        by (rule word_lt_unat_Suc)
      show ?thesis
        using assms ser Some u
        by (auto simp add: h2_ngn_shed_push_req_def Let_def ngn_add_req_def h2_task_freeze_def
              ngn_accounting_def ngn_upd_fields task_upd_fields apr_table_set_fields)
    next
      case None
      show ?thesis
      proof (cases einit)
        case noinit: None
        with assms ser None show ?thesis
          by (simp add: h2_ngn_shed_push_req_def Let_def apr_table_set_fields)
      next
        case (Some init)
        have n: "ngn_accounting (new_engine ?s0 type_name r)"
          by (rule new_engine_accounting)
        show ?thesis
          using assms ser None Some n
          by (simp add: h2_ngn_shed_push_req_def Let_def
                ngn_upd_fields task_upd_fields apr_table_set_fields ngn_accounting_def)
      qed
    qed
  qed
qed

lemma push_req_created_accounting:
  assumes "ngn_alloc (snd (h2_ngn_shed_push_req s type_name task r einit)) \<noteq> ngn_alloc s"
  shows "ngn_accounting
           (engines (snd (h2_ngn_shed_push_req s type_name task r einit)) (ngn_alloc s))"
proof -
  let ?s0 = "apr_table_set s (connection (requests s r)) H2_TASK_ID_NOTE (task_id (tasks s task))"
  have n: "ngn_accounting (new_engine ?s0 type_name r)"
    by (rule new_engine_accounting)
  show ?thesis
    using assms n
    by (simp add: h2_ngn_shed_push_req_def Let_def ngn_add_req_def h2_task_freeze_def
          ngn_upd_fields task_upd_fields apr_table_set_fields ngn_accounting_def
          split: if_splits option.splits)
qed

lemma pull_req_accounting:
  assumes "ngn_accounting (engines s p)"
  shows "ngn_accounting (engines (snd (snd (h2_ngn_shed_pull_req s ngn cap ws))) p)"
proof (cases "aborted (shed s)")
  case True
  with assms show ?thesis
    by (auto simp add: h2_ngn_shed_pull_req_def ngn_accounting_def ngn_upd_fields)
next
  case na: False
  show ?thesis
  proof (cases "pop_scan (tasks s) (entries (engines s ngn))")
    case None
    show ?thesis
    proof (cases "entries (engines s ngn) = []")
      case True
      with assms na show ?thesis
        by (auto simp add: h2_ngn_shed_pull_req_def Let_def ngn_accounting_def ngn_upd_fields)
    next
      case False
      with assms show ?thesis
        by (auto simp add: pull_req_scan_None [OF na False None] ngn_accounting_def ngn_upd_fields)
    qed
  next
    case (Some q)
    obtain e rest where sc: "pop_scan (tasks s) (entries (engines s ngn)) = Some (e, rest)"
      using Some by (cases q) simp
    have len: "length (entries (engines s ngn)) = Suc (length rest)"
      by (rule pop_scan_length [OF sc])
    show ?thesis
    proof (cases "p = ngn")
      case False
      with assms show ?thesis
        by (simp add: pull_req_scan_Some [OF na sc] ngn_upd_fields)
    next
      case True
      have "unat (no_live (engines s ngn)) < unat (no_assigned (engines s ngn))"
        using assms True len by (simp add: ngn_accounting_def)
      then have "no_live (engines s ngn) < no_assigned (engines s ngn)"
        by (simp add: word_less_nat_alt)
      then have "unat (no_live (engines s ngn) + 1) = Suc (unat (no_live (engines s ngn)))"
        by (rule word_lt_unat_Suc)
      then show ?thesis
        using assms True len
        by (simp add: pull_req_scan_Some [OF na sc] ngn_accounting_def ngn_upd_fields)
    qed
  qed
qed

lemma done_task_other:
  "p \<noteq> ngn \<Longrightarrow> engines (snd (h2_ngn_shed_done_task s ngn task)) p = engines s p"
  by (simp add: h2_ngn_shed_done_task_def ngn_done_task_def Let_def ngn_upd_fields)

lemma done_task_self:
  "engines (snd (h2_ngn_shed_done_task s p task)) p =
     (engines s p)\<lparr>no_finished := no_finished (engines s p) + 1,
                    no_live := no_live (engines s p) - 1,
                    no_assigned := no_assigned (engines s p) - 1\<rparr>"
  by (simp add: h2_ngn_shed_done_task_def ngn_done_task_def Let_def ngn_upd_fields)

lemma done_task_accounting:
  assumes "ngn_accounting (engines s p)"
  shows "ngn_accounting (engines (snd (h2_ngn_shed_done_task s p task)) p)
         \<longleftrightarrow> no_live (engines s p) \<noteq> 0 \<or> entries (engines s p) = []"
proof (cases "no_live (engines s p) = 0")
  case False
  then have l: "unat (no_live (engines s p) - 1) = unat (no_live (engines s p)) - 1"
    by (rule unat_minus_one)
  have q: "0 < unat (no_live (engines s p))"
    using False by (simp add: unat_gt_0)
  then have "0 < unat (no_assigned (engines s p))"
    using assms by (simp add: ngn_accounting_def)
  then have "no_assigned (engines s p) \<noteq> 0"
    by (simp add: unat_gt_0)
  then have "unat (no_assigned (engines s p) - 1) = unat (no_assigned (engines s p)) - 1"
    by (rule unat_minus_one)
  with assms l q False show ?thesis
    by (simp add: done_task_self ngn_accounting_def)
next
  case live0: True
  then have a: "unat (no_assigned (engines s p)) = length (entries (engines s p))"
    using assms by (simp add: ngn_accounting_def)
  have m: "unat (- 1 :: 32 word) = 4294967295"
    by (simp add: unsigned_minus_1_eq_mask mask_eq_exp_minus_1)
  show ?thesis
  proof (cases "entries (engines s p) = []")
    case True
    with a have "no_assigned (engines s p) = 0"
      by (simp add: unat_eq_zero)
    with live0 True m show ?thesis
      by (simp add: done_task_self ngn_accounting_def)
  next
    case False
    have "0 < unat (no_assigned (engines s p))"
      using a False by simp
    then have "no_assigned (engines s p) \<noteq> 0"
      by (simp add: unat_gt_0)
    then have "unat (no_assigned (engines s p) - 1) = unat (no_assigned (engines s p)) - 1"
      by (rule unat_minus_one)
    with a have "unat (no_assigned (engines s p) - 1) < length (entries (engines s p)) + 4294967295"
      by simp
    with live0 False m show ?thesis
      by (simp add: done_task_self ngn_accounting_def)
  qed
qed

lemma done_ngn_other:
  "p \<noteq> ngn \<Longrightarrow> engines (h2_ngn_shed_done_ngn s ngn) p = engines s p"
  by (simp add: h2_ngn_shed_done_ngn_def Let_def done_ngn_loop_engines)

lemma done_ngn_accounting:
  assumes "ngn_accounting (engines s p)"
  shows "ngn_accounting (engines (h2_ngn_shed_done_ngn s p) p)
         \<longleftrightarrow> aborted (shed s) \<or> entries (engines s p) = []"
proof (cases "aborted (shed s) \<or> entries (engines s p) = []")
  case True
  with assms done_ngn_idle_engines [OF True] show ?thesis
    by simp
next
  case False
  have "of_nat (unat (no_assigned (engines s p)))
      = (of_nat (length (entries (engines s p)) + unat (no_live (engines s p))) :: 32 word)"
    using assms by (simp add: ngn_accounting_def)
  then have "no_assigned (engines s p) = of_nat (length (entries (engines s p))) + no_live (engines s p)"
    by simp
  then have "no_assigned (engines (h2_ngn_shed_done_ngn s p) p) = no_live (engines s p)"
    using False by (simp add: done_ngn_no_assigned)
  with False show ?thesis
    by (simp add: ngn_accounting_def done_ngn_entries done_ngn_no_live)
qed

subsection \<open>The example states\<close>

lemma state1_facts:
  "\<not> aborted (shed state1)"
  "ngn_alloc state1 = 1"
  "ngns (shed state1) = [''echo'' \<mapsto> 0]"
  "entries (engines state1 0) = [\<lparr>entry_task = 2, entry_r = 2\<rparr>, \<lparr>entry_task = 3, entry_r = 3\<rparr>,
      \<lparr>entry_task = 4, entry_r = 4\<rparr>]"
  "no_assigned (engines state1 0) = 4"
  "no_live (engines state1 0) = 1"
  "no_finished (engines state1 0) = 0"
  "ngn_type (engines state1 0) = ''echo''"
  "frozen (tasks state1 t) = (t = 2)"
  "h2_ctx_rget_task state1 r = r"
  by (simp_all add: state1_def engine1_def h2_ngn_shed_create_def h2_ctx_rget_task_def)

lemma state2_facts:
  "\<not> aborted (shed state2)"
  "ngn_alloc state2 = 1"
  "ngns (shed state2) = [''echo'' \<mapsto> 0]"
  "next_ngn_id (shed state2) = 1"
  "conn_id (conns state2 (shed_c (shed state2))) = 7"
  "shutdown (engines state2 0)"
  "\<not> ser_headers (tasks state2 5)"
  by (simp_all add: state2_def ngn_upd_fields state1_def engine1_def h2_ngn_shed_create_def)

lemma state2_no_target:
  "ngns (shed state2) ''echo'' = None
   \<or> (\<exists>ngn. ngns (shed state2) ''echo'' = Some ngn
         \<and> (shutdown (engines state2 ngn)
            \<or> capacity (engines state2 ngn) \<le> no_assigned (engines state2 ngn)))"
  by (simp add: state2_facts)

lemma state3_facts:
  "\<not> aborted (shed state3)"
  "ngns (shed state3) = [''echo'' \<mapsto> 1]"
  "ngn_type (engines state3 0) = ''echo''"
  "length (entries (engines state3 0)) = 3"
  "no_finished (engines state3 0) = 0"
  "no_assigned (engines state3 0) = 4"
  "no_live (engines state3 0) = 1"
  "no_assigned (engines state3 1) = 1"
  "no_live (engines state3 1) = 1"
  "entries (engines state3 1) = []"
  by (simp_all add: state3_def state2_def h2_ngn_shed_push_req_def Let_def push_target_def
        new_engine_def einit_ok_def ngn_upd_fields task_upd_fields apr_table_set_fields
        state1_def engine1_def h2_ngn_shed_create_def)



subsection \<open>Pull\<close>

text \<open>
  C10. A pull on an engine of an aborted shed changes the state in one place only: the
  engine's shutdown flag is set. The engine's capacity is not set to the caller's desired
  capacity, and the queue and the counters \<open>no_assigned\<close>, \<open>no_live\<close> and
  \<open>no_finished\<close> stay as they are. Every pull on a shed that is not aborted sets the
  capacity to the desired one.
\<close>

theorem pull_req_aborted_frame:
  "(aborted (shed s) \<longrightarrow>
      (case h2_ngn_shed_pull_req s ngn cap want_shutdown of
         (status, pr, s') \<Rightarrow>
           s' = s\<lparr>engines := (engines s)(ngn := (engines s ngn)\<lparr>shutdown := True\<rparr>)\<rparr>
           \<and> capacity (engines s' ngn) = capacity (engines s ngn)
           \<and> entries (engines s' ngn) = entries (engines s ngn)
           \<and> no_assigned (engines s' ngn) = no_assigned (engines s ngn)
           \<and> no_live (engines s' ngn) = no_live (engines s ngn)
           \<and> no_finished (engines s' ngn) = no_finished (engines s ngn)))
   \<and> (\<not> aborted (shed s) \<longrightarrow>
      (case h2_ngn_shed_pull_req s ngn cap want_shutdown of
         (status, pr, s') \<Rightarrow> capacity (engines s' ngn) = cap))"
  by (simp add: h2_ngn_shed_pull_req_def pop_non_frozen_def ngn_upd_def Let_def
           split: option.split prod.split)

theorem pull_req_aborted_frame_witness:
  "aborted (shed (h2_ngn_shed_abort state1))
   \<and> capacity (engines (snd (snd (h2_ngn_shed_pull_req (h2_ngn_shed_abort state1) 0 5 False))) 0) = 100
   \<and> shutdown (engines (snd (snd (h2_ngn_shed_pull_req (h2_ngn_shed_abort state1) 0 5 False))) 0)
   \<and> \<not> aborted (shed state1)
   \<and> capacity (engines (snd (snd (h2_ngn_shed_pull_req state1 0 5 False))) 0) = 5"
  using pull_req_aborted_frame [of "h2_ngn_shed_abort state1" 0 5 False]
        pull_req_aborted_frame [of state1 0 5 False]
  by (simp add: h2_ngn_shed_abort_def state1_def engine1_def h2_ngn_shed_create_def split: prod.splits)

text \<open>
  C8. A pull on a shed that is not aborted, from an engine whose queue is empty: the
  engine is marked shut down if the caller wants the shutdown; the status is end of stream
  (\<open>APR_EOF\<close>) if the engine is then shut down and try again (\<open>APR_EAGAIN\<close>) otherwise;
  no request is returned and no counter changes.
\<close>

theorem pull_req_empty_queue:
  assumes "\<not> aborted (shed s)" and "entries (engines s ngn) = []"
  shows "case h2_ngn_shed_pull_req s ngn cap want_shutdown of
           (status, pr, s') \<Rightarrow>
             shutdown (engines s' ngn) = (want_shutdown \<or> shutdown (engines s ngn))
             \<and> status = (if shutdown (engines s' ngn) then APR_EOF else APR_EAGAIN)
             \<and> pr = None
             \<and> no_assigned (engines s' ngn) = no_assigned (engines s ngn)
             \<and> no_live (engines s' ngn) = no_live (engines s ngn)
             \<and> no_finished (engines s' ngn) = no_finished (engines s ngn)
             \<and> entries (engines s' ngn) = []"
  using assms
  by (simp add: h2_ngn_shed_pull_req_def ngn_upd_def Let_def)

theorem pull_req_empty_queue_witness:
  "\<not> aborted (shed state0) \<and> entries (engines state0 0) = []
   \<and> h2_ngn_shed_pull_req state0 0 10 False
       = (APR_EAGAIN, None, ngn_upd 0 (\<lambda>e. e\<lparr>capacity := 10\<rparr>) state0)
   \<and> fst (h2_ngn_shed_pull_req state0 0 10 True) = APR_EOF
   \<and> shutdown (engines (snd (snd (h2_ngn_shed_pull_req state0 0 10 True))) 0)"
proof -
  have h1: "\<not> aborted (shed state0)"
    by (simp add: state0_def h2_ngn_shed_create_def)
  have h2: "entries (engines state0 0) = []"
    by (simp add: state0_def engine0_def)
  show ?thesis
    using h1 h2 pull_req_empty_queue [OF h1 h2, where cap = 10 and want_shutdown = False]
      pull_req_empty_queue [OF h1 h2, where cap = 10 and want_shutdown = True]
    by (simp add: h2_ngn_shed_pull_req_def ngn_upd_fields Let_def state0_def engine0_def
          split: prod.splits)
qed

text \<open>
  C4. Once abort has been called, the abort flag stays set through every later call into
  the shed, whatever the calls are; so every later pull, on any engine, returns
  \<open>APR_ECONNABORTED\<close>, returns no request and leaves that engine marked shut down.
\<close>

theorem abort_is_sticky:
  "aborted (shed (shed_calls (h2_ngn_shed_abort s) cs))
   \<and> (case h2_ngn_shed_pull_req (shed_calls (h2_ngn_shed_abort s) cs) ngn cap want_shutdown of
        (status, pr, s') \<Rightarrow>
          status = APR_ECONNABORTED \<and> pr = None \<and> shutdown (engines s' ngn)
          \<and> aborted (shed s'))"
proof -
  have a: "aborted (shed (shed_calls (h2_ngn_shed_abort s) cs))"
    by (rule shed_calls_aborted) (simp add: h2_ngn_shed_abort_def)
  then show ?thesis
    by (simp add: h2_ngn_shed_pull_req_def ngn_upd_fields)
qed

theorem abort_is_sticky_witness:
  "aborted (shed (shed_calls (h2_ngn_shed_abort state1)
       [Pull_req 0 10 False, Push_req ''echo'' 5 5 (Some einit_ok), Done_ngn 0]))
   \<and> fst (h2_ngn_shed_pull_req (shed_calls (h2_ngn_shed_abort state1)
       [Pull_req 0 10 False, Push_req ''echo'' 5 5 (Some einit_ok), Done_ngn 0]) 0 10 False)
      = APR_ECONNABORTED"
  using abort_is_sticky [of state1 "[Pull_req 0 10 False, Push_req ''echo'' 5 5 (Some einit_ok), Done_ngn 0]" 0 10 False]
  by (simp split: prod.splits)

text \<open>
  C2. A pull on a shed that is not aborted, from an engine whose queue is not empty (the
  branch of the pull that scans the queue). If the queue is some frozen entries, then an
  entry whose task is not frozen, then the rest, the pull returns \<open>APR_SUCCESS\<close> and that
  entry's request, takes exactly that entry out of the queue, all others staying in their
  order, and adds one to \<open>no_live\<close>. If the tasks of all queued entries are frozen, the
  pull returns \<open>APR_EAGAIN\<close> and no request, and the queue is unchanged. Across calls: the
  requests handed out by \<open>k\<close> pulls in a row are the first \<open>k\<close> queued entries with a task
  that is not frozen, in queue order, which is push order since a push appends at the tail.
\<close>

theorem pull_req_first_non_frozen:
  assumes "\<not> aborted (shed s)" and "entries (engines s ngn) \<noteq> []"
  shows "(\<forall>skipped e rest.
            entries (engines s ngn) = skipped @ e # rest
            \<and> (\<forall>x \<in> set skipped. frozen (tasks s (entry_task x)))
            \<and> \<not> frozen (tasks s (entry_task e))
            \<longrightarrow> (case h2_ngn_shed_pull_req s ngn cap want_shutdown of
                   (status, pr, s') \<Rightarrow>
                     status = APR_SUCCESS \<and> pr = Some (entry_r e)
                     \<and> entries (engines s' ngn) = skipped @ rest
                     \<and> no_live (engines s' ngn) = no_live (engines s ngn) + 1))
       \<and> ((\<forall>x \<in> set (entries (engines s ngn)). frozen (tasks s (entry_task x)))
            \<longrightarrow> (case h2_ngn_shed_pull_req s ngn cap want_shutdown of
                   (status, pr, s') \<Rightarrow>
                     status = APR_EAGAIN \<and> pr = None
                     \<and> entries (engines s' ngn) = entries (engines s ngn)
                     \<and> no_live (engines s' ngn) = no_live (engines s ngn)))
       \<and> pull_reqs k s ngn cap want_shutdown =
           map entry_r (take k (filter (\<lambda>e. \<not> frozen (tasks s (entry_task e)))
                                  (entries (engines s ngn))))"
proof (intro conjI allI impI)
  fix skipped e rest
  assume a: "entries (engines s ngn) = skipped @ e # rest
            \<and> (\<forall>x \<in> set skipped. frozen (tasks s (entry_task x)))
            \<and> \<not> frozen (tasks s (entry_task e))"
  then have "pop_scan (tasks s) (entries (engines s ngn)) = Some (e, skipped @ rest)"
    by (simp add: pop_scan_split)
  then show "case h2_ngn_shed_pull_req s ngn cap want_shutdown of
                   (status, pr, s') \<Rightarrow>
                     status = APR_SUCCESS \<and> pr = Some (entry_r e)
                     \<and> entries (engines s' ngn) = skipped @ rest
                     \<and> no_live (engines s' ngn) = no_live (engines s ngn) + 1"
    by (simp add: pull_req_scan_Some [OF assms(1)] ngn_upd_fields)
next
  assume "\<forall>x \<in> set (entries (engines s ngn)). frozen (tasks s (entry_task x))"
  then have "pop_scan (tasks s) (entries (engines s ngn)) = None"
    by (simp add: pop_scan_None)
  then show "case h2_ngn_shed_pull_req s ngn cap want_shutdown of
                   (status, pr, s') \<Rightarrow>
                     status = APR_EAGAIN \<and> pr = None
                     \<and> entries (engines s' ngn) = entries (engines s ngn)
                     \<and> no_live (engines s' ngn) = no_live (engines s ngn)"
    by (simp add: pull_req_scan_None [OF assms] ngn_upd_fields)
next
  show "pull_reqs k s ngn cap want_shutdown =
           map entry_r (take k (filter (\<lambda>e. \<not> frozen (tasks s (entry_task e)))
                                  (entries (engines s ngn))))"
    by (rule pull_reqs_filter [OF assms(1)])
qed

theorem pull_req_first_non_frozen_witness:
  "\<not> aborted (shed state1) \<and> entries (engines state1 0) \<noteq> []
   \<and> fst (h2_ngn_shed_pull_req state1 0 10 False) = APR_SUCCESS
   \<and> fst (snd (h2_ngn_shed_pull_req state1 0 10 False)) = Some 3
   \<and> entries (engines (snd (snd (h2_ngn_shed_pull_req state1 0 10 False))) 0)
       = [\<lparr>entry_task = 2, entry_r = 2\<rparr>, \<lparr>entry_task = 4, entry_r = 4\<rparr>]
   \<and> no_live (engines (snd (snd (h2_ngn_shed_pull_req state1 0 10 False))) 0) = 2
   \<and> pull_reqs 5 state1 0 10 False = [3, 4]
   \<and> fst (h2_ngn_shed_pull_req
            (ngn_upd 0 (\<lambda>e. e\<lparr>entries := [\<lparr>entry_task = 2, entry_r = 2\<rparr>]\<rparr>) state1) 0 10 False)
       = APR_EAGAIN
   \<and> entries (engines (snd (snd (h2_ngn_shed_pull_req
            (ngn_upd 0 (\<lambda>e. e\<lparr>entries := [\<lparr>entry_task = 2, entry_r = 2\<rparr>]\<rparr>) state1) 0 10 False))) 0)
       = [\<lparr>entry_task = 2, entry_r = 2\<rparr>]"
proof -
  have h1: "\<not> aborted (shed state1)" and h2: "entries (engines state1 0) \<noteq> []"
    by (simp_all add: state1_facts)
  note t = pull_req_first_non_frozen [OF h1 h2, where cap = 10 and want_shutdown = False and k = 5]
  have "case h2_ngn_shed_pull_req state1 0 10 False of
          (status, pr, s') \<Rightarrow> status = APR_SUCCESS \<and> pr = Some 3
            \<and> entries (engines s' 0) = [\<lparr>entry_task = 2, entry_r = 2\<rparr>, \<lparr>entry_task = 4, entry_r = 4\<rparr>]
            \<and> no_live (engines s' 0) = 2"
    using t [THEN conjunct1, rule_format,
        of "[\<lparr>entry_task = 2, entry_r = 2\<rparr>]" "\<lparr>entry_task = 3, entry_r = 3\<rparr>" "[\<lparr>entry_task = 4, entry_r = 4\<rparr>]"]
    by (simp add: state1_facts)
  moreover have "pull_reqs 5 state1 0 10 False = [3, 4]"
    using t [THEN conjunct2, THEN conjunct2]
    by (simp add: state1_facts)
  moreover
  let ?s = "ngn_upd 0 (\<lambda>e. e\<lparr>entries := [\<lparr>entry_task = 2, entry_r = 2\<rparr>]\<rparr>) state1"
  have g1: "\<not> aborted (shed ?s)" and g2: "entries (engines ?s 0) \<noteq> []"
    by (simp_all add: state1_facts ngn_upd_fields)
  have "case h2_ngn_shed_pull_req ?s 0 10 False of
          (status, pr, s') \<Rightarrow> status = APR_EAGAIN \<and> pr = None
            \<and> entries (engines s' 0) = [\<lparr>entry_task = 2, entry_r = 2\<rparr>]
            \<and> no_live (engines s' 0) = no_live (engines ?s 0)"
    using pull_req_first_non_frozen [OF g1 g2, where cap = 10 and want_shutdown = False and k = 0,
        THEN conjunct2, THEN conjunct1]
    by (simp add: state1_facts ngn_upd_fields)
  ultimately show ?thesis
    using h1 h2 by (simp split: prod.splits)
qed

subsection \<open>Push\<close>

text \<open>
  C9. A push of a task that does not ask for serialized headers, with no initializer: if
  no engine is registered under the type, or the registered engine is in shutdown, or it
  has \<open>no_assigned >= capacity\<close>, the status is end of stream (\<open>APR_EOF\<close>) and the shed
  (its engine map included), all engines with their counters and queues, and all tasks are
  unchanged. The only change is the task id noted on the request's connection.
\<close>

theorem push_req_no_initializer:
  assumes "\<not> ser_headers (tasks s task)"
    and "ngns (shed s) type_name = None
         \<or> (\<exists>ngn. ngns (shed s) type_name = Some ngn
               \<and> (shutdown (engines s ngn)
                  \<or> capacity (engines s ngn) \<le> no_assigned (engines s ngn)))"
  shows "case h2_ngn_shed_push_req s type_name task r None of
           (status, s') \<Rightarrow>
             status = APR_EOF
             \<and> s' = apr_table_set s (connection (requests s r)) H2_TASK_ID_NOTE (task_id (tasks s task))
             \<and> shed s' = shed s \<and> engines s' = engines s \<and> ngn_alloc s' = ngn_alloc s
             \<and> tasks s' = tasks s"
  using assms
  by (auto simp add: h2_ngn_shed_push_req_def Let_def push_target_def apr_table_set_fields
        split: option.split)

theorem push_req_no_initializer_witness:
  "\<not> ser_headers (tasks state0 1) \<and> ngns (shed state0) ''echo'' = None
   \<and> fst (h2_ngn_shed_push_req state0 ''echo'' 1 1 None) = APR_EOF
   \<and> engines (snd (h2_ngn_shed_push_req state0 ''echo'' 1 1 None)) = engines state0
   \<and> shed (snd (h2_ngn_shed_push_req state0 ''echo'' 1 1 None)) = shed state0
   \<and> \<not> ser_headers (tasks state2 5) \<and> ngns (shed state2) ''echo'' = Some 0
   \<and> shutdown (engines state2 0)
   \<and> fst (h2_ngn_shed_push_req state2 ''echo'' 5 5 None) = APR_EOF
   \<and> engines (snd (h2_ngn_shed_push_req state2 ''echo'' 5 5 None)) = engines state2
   \<and> shed (snd (h2_ngn_shed_push_req state2 ''echo'' 5 5 None)) = shed state2"
proof -
  have h1: "\<not> ser_headers (tasks state0 1)"
    by (simp add: state0_def)
  have h2: "ngns (shed state0) ''echo'' = None"
    by (simp add: state0_def h2_ngn_shed_create_def)
  have g1: "\<not> ser_headers (tasks state2 5)"
    by (simp add: state2_facts)
  show ?thesis
    using h1 h2 push_req_no_initializer [OF h1 disjI1 [OF h2], where r = 1]
      push_req_no_initializer [OF g1 state2_no_target, where r = 5]
    by (simp add: state2_facts split: prod.splits)
qed

text \<open>
  C6. A push that finds, under the requested type, an engine that is not in shutdown and
  has \<open>no_assigned < capacity\<close>: the task is frozen, the entry (task, request) is appended
  at the tail of that engine's queue, \<open>no_assigned\<close> grows by one (without wrapping), and
  the status is \<open>APR_SUCCESS\<close>. No engine is created: no other engine changes, nothing is
  allocated, and the shed with its engine map is unchanged.
\<close>

theorem push_req_queues:
  assumes "\<not> ser_headers (tasks s task)"
    and "ngns (shed s) type_name = Some ngn"
    and "\<not> shutdown (engines s ngn)"
    and "no_assigned (engines s ngn) < capacity (engines s ngn)"
  shows "case h2_ngn_shed_push_req s type_name task r einit of
           (status, s') \<Rightarrow>
             status = APR_SUCCESS
             \<and> frozen (tasks s' task)
             \<and> entries (engines s' ngn) = entries (engines s ngn) @ [\<lparr>entry_task = task, entry_r = r\<rparr>]
             \<and> no_assigned (engines s' ngn) = no_assigned (engines s ngn) + 1
             \<and> unat (no_assigned (engines s' ngn)) = Suc (unat (no_assigned (engines s ngn)))
             \<and> (\<forall>p. p \<noteq> ngn \<longrightarrow> engines s' p = engines s p)
             \<and> ngn_alloc s' = ngn_alloc s
             \<and> shed s' = shed s"
proof -
  have t: "push_target (apr_table_set s (connection (requests s r)) H2_TASK_ID_NOTE (task_id (tasks s task))) type_name = Some ngn"
    using assms by (simp add: push_target_def apr_table_set_fields)
  have u: "unat (no_assigned (engines s ngn) + 1) = Suc (unat (no_assigned (engines s ngn)))"
    using assms(4) by (rule word_lt_unat_Suc)
  show ?thesis
    using assms(1) t u
    by (simp add: h2_ngn_shed_push_req_def Let_def ngn_add_req_def h2_task_freeze_def
        ngn_upd_fields task_upd_fields apr_table_set_fields)
qed

theorem push_req_queues_witness:
  "\<not> ser_headers (tasks state1 5) \<and> ngns (shed state1) ''echo'' = Some 0
   \<and> \<not> shutdown (engines state1 0) \<and> no_assigned (engines state1 0) < capacity (engines state1 0)
   \<and> fst (h2_ngn_shed_push_req state1 ''echo'' 5 5 None) = APR_SUCCESS
   \<and> entries (engines (snd (h2_ngn_shed_push_req state1 ''echo'' 5 5 None)) 0)
       = [\<lparr>entry_task = 2, entry_r = 2\<rparr>, \<lparr>entry_task = 3, entry_r = 3\<rparr>,
          \<lparr>entry_task = 4, entry_r = 4\<rparr>, \<lparr>entry_task = 5, entry_r = 5\<rparr>]
   \<and> no_assigned (engines (snd (h2_ngn_shed_push_req state1 ''echo'' 5 5 None)) 0) = 5"
proof -
  have h1: "\<not> ser_headers (tasks state1 5)"
    by (simp add: state1_def)
  have h2: "ngns (shed state1) ''echo'' = Some 0"
    by (simp add: state1_def h2_ngn_shed_create_def)
  have h3: "\<not> shutdown (engines state1 0)"
    by (simp add: state1_def engine1_def)
  have h4: "no_assigned (engines state1 0) < capacity (engines state1 0)"
    by (simp add: state1_def engine1_def)
  have e: "entries (engines state1 0) = [\<lparr>entry_task = 2, entry_r = 2\<rparr>,
      \<lparr>entry_task = 3, entry_r = 3\<rparr>, \<lparr>entry_task = 4, entry_r = 4\<rparr>]"
    and a: "no_assigned (engines state1 0) = 4"
    by (simp_all add: state1_def engine1_def)
  show ?thesis
    using h1 h2 h3 h4 push_req_queues [OF h1 h2 h3 h4, where r = 5 and einit = None]
    by (simp add: e a split: prod.splits)
qed

text \<open>
  C7, as the code has it. A push whose task asks for serialized headers is refused at
  once, with the status \<open>APR_EOF\<close>; the shed, the engines and the tasks are unchanged (the
  task id has been noted on the request's connection before the check). \<open>APR_EOF\<close> is also
  the status of the end-of-stream outcome: the code has one status for both.
\<close>

theorem push_req_serialized:
  assumes "ser_headers (tasks s task)"
  shows "case h2_ngn_shed_push_req s type_name task r einit of
           (status, s') \<Rightarrow>
             status = APR_EOF
             \<and> s' = apr_table_set s (connection (requests s r)) H2_TASK_ID_NOTE (task_id (tasks s task))
             \<and> shed s' = shed s \<and> engines s' = engines s \<and> ngn_alloc s' = ngn_alloc s
             \<and> tasks s' = tasks s"
  using assms
  by (simp add: h2_ngn_shed_push_req_def Let_def apr_table_set_fields)

theorem push_req_serialized_witness:
  "ser_headers (tasks state1 9)
   \<and> fst (h2_ngn_shed_push_req state1 ''echo'' 9 9 (Some einit_ok)) = APR_EOF
   \<and> engines (snd (h2_ngn_shed_push_req state1 ''echo'' 9 9 (Some einit_ok))) = engines state1
   \<and> shed (snd (h2_ngn_shed_push_req state1 ''echo'' 9 9 (Some einit_ok))) = shed state1"
proof -
  have h: "ser_headers (tasks state1 9)"
    by (simp add: state1_def)
  show ?thesis
    using h push_req_serialized [OF h, where type_name = "''echo''" and r = 9 and einit = "Some einit_ok"]
    by (simp split: prod.splits)
qed

text \<open>
  The claim C7 says that the outcome of this refusal is distinct from the end-of-stream
  outcome. On the fresh connection, the push of the serialized task 9 and the push of
  task 1 with no engine and no initializer return the same status.
\<close>

theorem push_req_serialized_counterexample:
  "ser_headers (tasks state0 9)
   \<and> \<not> ser_headers (tasks state0 1) \<and> ngns (shed state0) ''echo'' = None
   \<and> fst (h2_ngn_shed_push_req state0 ''echo'' 9 9 None) = APR_EOF
   \<and> fst (h2_ngn_shed_push_req state0 ''echo'' 1 1 None) = APR_EOF"
  by (simp add: h2_ngn_shed_push_req_def Let_def apr_table_set_fields push_target_def
        state0_def h2_ngn_shed_create_def)




subsection \<open>Completion\<close>

text \<open>
  C5. \<open>h2_ngn_shed_done_ngn\<close> on a shed that is not aborted, for an engine with \<open>N\<close>
  entries still queued: \<open>no_finished\<close> grows by \<open>N\<close>, \<open>no_assigned\<close> shrinks by \<open>N\<close>,
  \<open>no_live\<close> stays, the output of the task of each queued request is closed and no
  other task is touched. Afterwards the engine is taken out of the engine map exactly if it
  is the engine registered under its type; an engine that replaced it stays registered.
\<close>

theorem done_ngn_finishes_queued:
  assumes "\<not> aborted (shed s)"
  shows "no_finished (engines (h2_ngn_shed_done_ngn s ngn) ngn)
           = no_finished (engines s ngn) + of_nat (length (entries (engines s ngn)))
       \<and> no_assigned (engines (h2_ngn_shed_done_ngn s ngn) ngn)
           = no_assigned (engines s ngn) - of_nat (length (entries (engines s ngn)))
       \<and> no_live (engines (h2_ngn_shed_done_ngn s ngn) ngn) = no_live (engines s ngn)
       \<and> (\<forall>e \<in> set (entries (engines s ngn)).
             output_closed (tasks (h2_ngn_shed_done_ngn s ngn) (h2_ctx_rget_task s (entry_r e))))
       \<and> (\<forall>t. t \<notin> h2_ctx_rget_task s ` entry_r ` set (entries (engines s ngn))
             \<longrightarrow> tasks (h2_ngn_shed_done_ngn s ngn) t = tasks s t)
       \<and> ngns (shed (h2_ngn_shed_done_ngn s ngn))
           = (if ngns (shed s) (ngn_type (engines s ngn)) = Some ngn
              then (ngns (shed s))(ngn_type (engines s ngn) := None)
              else ngns (shed s))"
  using assms
  by (simp add: h2_ngn_shed_done_ngn_def Let_def done_ngn_loop_shed done_ngn_loop_engines
        done_ngn_loop_tasks)

theorem done_ngn_finishes_queued_witness:
  "\<not> aborted (shed state1)
   \<and> no_finished (engines (h2_ngn_shed_done_ngn state1 0) 0) = 3
   \<and> no_assigned (engines (h2_ngn_shed_done_ngn state1 0) 0) = 1
   \<and> no_live (engines (h2_ngn_shed_done_ngn state1 0) 0) = 1
   \<and> output_closed (tasks (h2_ngn_shed_done_ngn state1 0) 2)
   \<and> output_closed (tasks (h2_ngn_shed_done_ngn state1 0) 3)
   \<and> output_closed (tasks (h2_ngn_shed_done_ngn state1 0) 4)
   \<and> tasks (h2_ngn_shed_done_ngn state1 0) 1 = tasks state1 1
   \<and> ngns (shed (h2_ngn_shed_done_ngn state1 0)) ''echo'' = None
   \<and> \<not> aborted (shed state3) \<and> ngns (shed state3) ''echo'' = Some 1
   \<and> no_finished (engines (h2_ngn_shed_done_ngn state3 0) 0) = 3
   \<and> ngns (shed (h2_ngn_shed_done_ngn state3 0)) ''echo'' = Some 1"
proof -
  have h: "\<not> aborted (shed state1)"
    by (simp add: state1_facts)
  have g: "\<not> aborted (shed state3)"
    by (simp add: state3_facts)
  show ?thesis
    using h g done_ngn_finishes_queued [OF h, where ngn = 0]
      done_ngn_finishes_queued [OF g, where ngn = 0]
    by (simp add: state1_facts state3_facts)
qed

subsection \<open>Accounting\<close>

text \<open>
  C1, as the code has it. With the counters read as natural numbers, \<open>no_assigned\<close> =
  (entries in the queue) + \<open>no_live\<close> holds of an engine when a push creates it. An engine
  of which it holds before a call satisfies it again after every push, after every pull,
  and after every \<open>h2_ngn_shed_done_task\<close> and \<open>h2_ngn_shed_done_ngn\<close> called for
  another engine. After a \<open>h2_ngn_shed_done_task\<close> for the engine itself it holds exactly
  if the engine had \<open>no_live >= 1\<close> or an empty queue. After a \<open>h2_ngn_shed_done_ngn\<close>
  for the engine itself it holds exactly if the shed is aborted or the engine's queue is
  empty: on a shed that is not aborted the call finishes every queued entry and leaves the
  entries in the queue, so that afterwards \<open>no_assigned = no_live\<close>, with the queue as
  long as before.
\<close>

theorem accounting_preserved:
  assumes "ngn_accounting (engines s p)"
  shows "ngn_accounting (engines (snd (h2_ngn_shed_push_req s type_name task r einit)) p)
       \<and> (ngn_alloc (snd (h2_ngn_shed_push_req s type_name task r einit)) \<noteq> ngn_alloc s
            \<longrightarrow> ngn_accounting
                  (engines (snd (h2_ngn_shed_push_req s type_name task r einit)) (ngn_alloc s)))
       \<and> ngn_accounting (engines (snd (snd (h2_ngn_shed_pull_req s ngn cap want_shutdown))) p)
       \<and> (ngn \<noteq> p \<longrightarrow> ngn_accounting (engines (snd (h2_ngn_shed_done_task s ngn t)) p))
       \<and> (ngn_accounting (engines (snd (h2_ngn_shed_done_task s p t)) p)
            \<longleftrightarrow> no_live (engines s p) \<noteq> 0 \<or> entries (engines s p) = [])
       \<and> (ngn \<noteq> p \<longrightarrow> ngn_accounting (engines (h2_ngn_shed_done_ngn s ngn) p))
       \<and> (ngn_accounting (engines (h2_ngn_shed_done_ngn s p) p)
            \<longleftrightarrow> aborted (shed s) \<or> entries (engines s p) = [])
       \<and> (\<not> aborted (shed s)
            \<longrightarrow> entries (engines (h2_ngn_shed_done_ngn s p) p) = entries (engines s p)
              \<and> no_assigned (engines (h2_ngn_shed_done_ngn s p) p)
                  = no_live (engines (h2_ngn_shed_done_ngn s p) p))"
proof (intro conjI impI)
  show "ngn_accounting (engines (snd (h2_ngn_shed_push_req s type_name task r einit)) p)"
    by (rule push_req_accounting [OF assms])
  show "ngn_accounting
          (engines (snd (h2_ngn_shed_push_req s type_name task r einit)) (ngn_alloc s))"
    if "ngn_alloc (snd (h2_ngn_shed_push_req s type_name task r einit)) \<noteq> ngn_alloc s"
    by (rule push_req_created_accounting [OF that])
  show "ngn_accounting (engines (snd (snd (h2_ngn_shed_pull_req s ngn cap want_shutdown))) p)"
    by (rule pull_req_accounting [OF assms])
  show "ngn_accounting (engines (snd (h2_ngn_shed_done_task s ngn t)) p)" if "ngn \<noteq> p"
    using assms that by (simp add: done_task_other)
  show "ngn_accounting (engines (snd (h2_ngn_shed_done_task s p t)) p)
          \<longleftrightarrow> no_live (engines s p) \<noteq> 0 \<or> entries (engines s p) = []"
    by (rule done_task_accounting [OF assms])
  show "ngn_accounting (engines (h2_ngn_shed_done_ngn s ngn) p)" if "ngn \<noteq> p"
    using assms that by (simp add: done_ngn_other)
  show "ngn_accounting (engines (h2_ngn_shed_done_ngn s p) p)
          \<longleftrightarrow> aborted (shed s) \<or> entries (engines s p) = []"
    by (rule done_ngn_accounting [OF assms])
  show "entries (engines (h2_ngn_shed_done_ngn s p) p) = entries (engines s p)"
    by (rule done_ngn_entries)
  show "no_assigned (engines (h2_ngn_shed_done_ngn s p) p)
          = no_live (engines (h2_ngn_shed_done_ngn s p) p)"
    if h: "\<not> aborted (shed s)"
  proof -
    have "of_nat (unat (no_assigned (engines s p)))
        = (of_nat (length (entries (engines s p)) + unat (no_live (engines s p))) :: 32 word)"
      using assms by (simp add: ngn_accounting_def)
    then have "no_assigned (engines s p) = of_nat (length (entries (engines s p))) + no_live (engines s p)"
      by simp
    then show ?thesis
      using h by (simp add: done_ngn_no_assigned done_ngn_no_live)
  qed
qed

text \<open>
  The witness: engine 0 of the example state through a push, a pull, and the report of its
  live task; and, once engine 0 has been replaced by engine 1 and has exited with its
  three entries still queued, engine 1 through that exit and through a later push and pull.
\<close>

theorem accounting_preserved_witness:
  "ngn_accounting (engines state1 0)
   \<and> ngn_accounting (engines (snd (h2_ngn_shed_push_req state1 ''echo'' 5 5 None)) 0)
   \<and> ngn_accounting (engines (snd (snd (h2_ngn_shed_pull_req state1 0 10 False))) 0)
   \<and> no_live (engines state1 0) \<noteq> 0
   \<and> ngn_accounting (engines (snd (h2_ngn_shed_done_task state1 0 1)) 0)
   \<and> \<not> aborted (shed state1)
   \<and> no_assigned (engines (h2_ngn_shed_done_ngn state1 0) 0) = 1
   \<and> no_live (engines (h2_ngn_shed_done_ngn state1 0) 0) = 1
   \<and> length (entries (engines (h2_ngn_shed_done_ngn state1 0) 0)) = 3
   \<and> ngn_accounting (engines state3 1)
   \<and> ngn_accounting (engines (h2_ngn_shed_done_ngn state3 0) 1)
   \<and> ngn_accounting (engines (snd (h2_ngn_shed_push_req (h2_ngn_shed_done_ngn state3 0) ''echo'' 6 6 None)) 1)
   \<and> ngn_accounting (engines (snd (snd (h2_ngn_shed_pull_req (h2_ngn_shed_done_ngn state3 0) 1 10 False))) 1)
   \<and> ngn_alloc (snd (h2_ngn_shed_push_req state0 ''echo'' 1 1 (Some einit_ok))) \<noteq> ngn_alloc state0
   \<and> ngn_accounting (engines (snd (h2_ngn_shed_push_req state0 ''echo'' 1 1 (Some einit_ok))) 0)"
proof -
  have h: "ngn_accounting (engines state1 0)"
    by (simp add: ngn_accounting_def state1_facts)
  have g: "ngn_accounting (engines state3 1)"
    unfolding ngn_accounting_def state3_facts by simp
  have g': "ngn_accounting (engines (h2_ngn_shed_done_ngn state3 0) 1)"
    using accounting_preserved [OF g, where ngn = 0] by simp
  have z: "ngn_accounting (engines state0 0)"
    by (simp add: ngn_accounting_def state0_def engine0_def)
  have c: "ngn_alloc (snd (h2_ngn_shed_push_req state0 ''echo'' 1 1 (Some einit_ok))) \<noteq> ngn_alloc state0"
    by (simp add: h2_ngn_shed_push_req_def Let_def push_target_def apr_table_set_fields
          ngn_upd_fields task_upd_fields einit_ok_def state0_def h2_ngn_shed_create_def)
  have a: "ngn_alloc state0 = 0"
    by (simp add: state0_def)
  show ?thesis
    using h g g' c
      accounting_preserved [OF h, where type_name = "''echo''" and task = 5 and r = 5
        and einit = None and ngn = 0 and cap = 10 and want_shutdown = False and t = 1]
      accounting_preserved [OF g', where type_name = "''echo''" and task = 6 and r = 6
        and einit = None and ngn = 1 and cap = 10 and want_shutdown = False]
      accounting_preserved [OF z, where type_name = "''echo''" and task = 1 and r = 1
        and einit = "Some einit_ok"]
    by (simp add: state1_facts a done_ngn_no_live)
qed

text \<open>
  The claim C1 has the equation hold after every \<open>h2_ngn_shed_done_ngn\<close> and every
  \<open>h2_ngn_shed_done_task\<close>. In the example state engine 0 has \<open>no_assigned = 4\<close>, three
  queued entries and \<open>no_live = 1\<close>. After \<open>h2_ngn_shed_done_ngn\<close> it has
  \<open>no_assigned = 1\<close>, \<open>no_live = 1\<close> and still three queued entries. And after the task
  the engine was created around is reported done, \<open>no_live\<close> is 0; a second report makes
  \<open>no_live\<close> wrap around to 4294967295, with \<open>no_assigned = 2\<close> and three queued entries.
\<close>

theorem accounting_counterexample:
  "ngn_accounting (engines state1 0) \<and> \<not> aborted (shed state1)
   \<and> no_assigned (engines (h2_ngn_shed_done_ngn state1 0) 0) = 1
   \<and> length (entries (engines (h2_ngn_shed_done_ngn state1 0) 0)) = 3
   \<and> no_live (engines (h2_ngn_shed_done_ngn state1 0) 0) = 1
   \<and> \<not> ngn_accounting (engines (h2_ngn_shed_done_ngn state1 0) 0)
   \<and> ngn_accounting (engines (snd (h2_ngn_shed_done_task state1 0 1)) 0)
   \<and> no_live (engines (snd (h2_ngn_shed_done_task state1 0 1)) 0) = 0
   \<and> no_assigned (engines (snd (h2_ngn_shed_done_task (snd (h2_ngn_shed_done_task state1 0 1)) 0 1)) 0) = 2
   \<and> length (entries (engines (snd (h2_ngn_shed_done_task (snd (h2_ngn_shed_done_task state1 0 1)) 0 1)) 0)) = 3
   \<and> no_live (engines (snd (h2_ngn_shed_done_task (snd (h2_ngn_shed_done_task state1 0 1)) 0 1)) 0)
       = 4294967295
   \<and> \<not> ngn_accounting
         (engines (snd (h2_ngn_shed_done_task (snd (h2_ngn_shed_done_task state1 0 1)) 0 1)) 0)"
proof -
  have a: "\<not> aborted (shed state1)"
    by (simp add: state1_facts)
  show ?thesis
    using a
    by (simp add: ngn_accounting_def
          done_ngn_entries done_ngn_no_live done_ngn_no_assigned state1_facts
          h2_ngn_shed_done_task_def ngn_done_task_def Let_def ngn_upd_fields)
qed

end
